theory Spec2Isabelle
  imports Main
begin

section \<open>The Athena query path of the MCP server\<close>

text \<open>
  The theory embeds the functions \<^verbatim>\<open>getQueryResultLocation\<close>, \<^verbatim>\<open>executeQuery\<close> and
  \<^verbatim>\<open>cancelQuery\<close> of the AWS Athena MCP server (TypeScript, the second document of
  \<^verbatim>\<open>mcp_servers/js/servers/square_mcp/README.md\<close>). The AWS SDK clients are remote
  collaborators: every call of a client is recorded in a log, and the answer of a client
  is an arbitrary function of the log so far and of the arguments of the call, so that an
  engine may answer differently at each status read. A rejected promise is the left
  summand of a sum type.
\<close>

subsection \<open>JavaScript conventions\<close>

text \<open>
  A value thrown by an SDK call is an \<^verbatim>\<open>Error\<close> object; the handlers read its
  \<^verbatim>\<open>message\<close>.
\<close>

datatype js_error = Error (message: string)

text \<open>\<^verbatim>\<open>v || d\<close> on an optional string: \<^verbatim>\<open>undefined\<close> and the empty string are falsy.\<close>

definition or_string :: "string option \<Rightarrow> string \<Rightarrow> string" where
  "or_string v d = (case v of None \<Rightarrow> d | Some s \<Rightarrow> if s = [] then d else s)"

text \<open>\<^verbatim>\<open>v || 0\<close> on an optional number.\<close>

definition or_zero :: "int option \<Rightarrow> int" where
  "or_zero v = (case v of None \<Rightarrow> 0 | Some n \<Rightarrow> n)"

text \<open>Interpolation into a template literal: of an optional string, of a number.\<close>

definition template_string :: "string option \<Rightarrow> string" where
  "template_string v = (case v of None \<Rightarrow> ''undefined'' | Some s \<Rightarrow> s)"

fun show_nat :: "nat \<Rightarrow> string" where
  "show_nat n =
     (if n < 10 then [''0123456789'' ! n]
      else show_nat (n div 10) @ [''0123456789'' ! (n mod 10)])"

declare show_nat.simps [simp del]

definition show_int :: "int \<Rightarrow> string" where
  "show_int i = (if i < 0 then ''-'' @ show_nat (nat (- i)) else show_nat (nat i))"

subsection \<open>Wire types of the SDK\<close>

record GetCallerIdentityResponse =
  Account :: "string option"

record StartQueryExecutionInput =
  QueryString :: string
  Database :: string
  WorkGroup :: string
  OutputLocation :: string

record StartQueryExecutionOutput =
  QueryExecutionId :: "string option"

record QueryExecutionStatus =
  State :: "string option"
  StateChangeReason :: "string option"

record QueryExecutionStatistics =
  DataScannedInBytes :: "int option"
  EngineExecutionTimeInMillis :: "int option"

record QueryExecution =
  Status :: "QueryExecutionStatus option"
  Statistics :: "QueryExecutionStatistics option"

record GetQueryExecutionOutput =
  QueryExecution :: "QueryExecution option"

record Datum =
  VarCharValue :: "string option"

record Row =
  Data :: "Datum list option"

record ColumnInfo =
  Name :: "string option"

record ResultSetMetadata =
  ColumnInfo :: "ColumnInfo list option"

record ResultSet =
  Rows :: "Row list option"
  ResultSetMetadata :: "ResultSetMetadata option"

record GetQueryResultsOutput =
  ResultSet :: "ResultSet option"

subsection \<open>The response envelope\<close>

text \<open>
  \<^verbatim>\<open>interface ToolResponse { success: boolean; data?: any; error?: string }\<close>.
  A row object is a plain object \<^verbatim>\<open>{}\<close>: it is modelled by its own properties, a map
  from property name to cell text. The order in which the properties are enumerated is
  not part of the model.
\<close>

record 'd ToolResponse =
  success :: bool
  data :: "'d option"
  error :: "string option"

type_synonym rowData = "string \<rightharpoonup> string"

record QueryData =
  query_execution_id :: "string option"
  status :: string
  columns :: "string list"
  rows :: "rowData list"
  row_count :: nat
  data_scanned_bytes :: int
  execution_time_ms :: int

text \<open>
  The payload of \<^verbatim>\<open>cancelQuery\<close> has the fields \<^verbatim>\<open>query_execution_id\<close>, \<^verbatim>\<open>status\<close> and
  \<^verbatim>\<open>message\<close>; they carry a prefix here, the plain names being those of the query payload
  and of the error object.
\<close>

record CancelData =
  cancel_query_execution_id :: string
  cancel_status :: string
  cancel_message :: string

subsection \<open>The server and its collaborators\<close>

datatype call =
    GetCallerIdentity
  | StartQueryExecution StartQueryExecutionInput
  | GetQueryExecution "string option"
  | GetQueryResults "string option" nat
  | Sleep int
  | StopQueryExecution string

text \<open>
  The configuration constants of the module, whether the \<^verbatim>\<open>athena\<close> client was
  initialised, and the behaviour of each SDK call used by the query path.
\<close>

record server =
  region :: string
  ATHENA_DATABASE :: string
  ATHENA_WORKGROUP :: string
  QUERY_TIMEOUT :: int
  athena :: bool
  getCallerIdentity :: "call list \<Rightarrow> js_error + GetCallerIdentityResponse"
  startQueryExecution ::
    "call list \<Rightarrow> StartQueryExecutionInput \<Rightarrow> js_error + StartQueryExecutionOutput"
  getQueryExecution :: "call list \<Rightarrow> string option \<Rightarrow> js_error + GetQueryExecutionOutput"
  getQueryResults :: "call list \<Rightarrow> string option \<Rightarrow> nat \<Rightarrow> js_error + GetQueryResultsOutput"
  stopQueryExecution :: "call list \<Rightarrow> string \<Rightarrow> js_error + unit"

fun status_calls :: "call list \<Rightarrow> nat" where
  "status_calls [] = 0"
| "status_calls (GetQueryExecution q # cs) = Suc (status_calls cs)"
| "status_calls (c # cs) = status_calls cs"

fun submissions :: "call list \<Rightarrow> StartQueryExecutionInput list" where
  "submissions [] = []"
| "submissions (StartQueryExecution p # cs) = p # submissions cs"
| "submissions (c # cs) = submissions cs"

subsection \<open>getQueryResultLocation\<close>

definition getQueryResultLocation :: "server \<Rightarrow> call list \<Rightarrow> (js_error + string) \<times> call list" where
  "getQueryResultLocation s h =
     (case getCallerIdentity s h of
        Inr identity \<Rightarrow>
          (Inr (''s3://aws-athena-query-results-'' @ region s @ ''-''
                  @ template_string (Account identity) @ ''/''),
           h @ [GetCallerIdentity])
      | Inl err \<Rightarrow>
          (Inr (''s3://aws-athena-query-results-'' @ region s @ ''-default/''),
           h @ [GetCallerIdentity]))"

subsection \<open>Decoding the result set\<close>

definition metadata_columns :: "ResultSet \<Rightarrow> string list" where
  "metadata_columns rs =
     (case ResultSetMetadata rs of
        None \<Rightarrow> []
      | Some md \<Rightarrow>
          (case ColumnInfo md of
             None \<Rightarrow> []
           | Some cis \<Rightarrow> map (\<lambda>col. or_string (Name col) '''') cis))"

definition row_cells :: "Row \<Rightarrow> Datum list" where
  "row_cells row = (case Data row of None \<Rightarrow> [] | Some cells \<Rightarrow> cells)"

definition cell_text :: "Datum \<Rightarrow> string" where
  "cell_text cell = or_string (VarCharValue cell) ''''"

text \<open>\<^verbatim>\<open>columns[cellIndex] || `col_${cellIndex}`\<close>.\<close>

definition colName :: "string list \<Rightarrow> nat \<Rightarrow> string" where
  "colName cols cellIndex =
     (if cellIndex < length cols \<and> cols ! cellIndex \<noteq> [] then cols ! cellIndex
      else ''col_'' @ show_nat cellIndex)"

text \<open>
  \<^verbatim>\<open>rowData[colName] = text\<close> on a plain object, the value being a string. The name
  \<^verbatim>\<open>__proto__\<close> is the accessor inherited from \<^verbatim>\<open>Object.prototype\<close>, whose setter ignores
  a value that is neither an object nor \<^verbatim>\<open>null\<close>: no property is stored. Every other name
  becomes, or overwrites, an own property.
\<close>

definition assign_property :: "rowData \<Rightarrow> string \<Rightarrow> string \<Rightarrow> rowData" where
  "assign_property rd name v = (if name = ''__proto__'' then rd else rd(name \<mapsto> v))"

text \<open>The inner \<^verbatim>\<open>forEach\<close> over the cells of a data row, from cell index \<open>i\<close>.\<close>

fun decode_cells :: "string list \<Rightarrow> nat \<Rightarrow> Datum list \<Rightarrow> rowData \<Rightarrow> rowData" where
  "decode_cells cols i [] rd = rd"
| "decode_cells cols i (cell # cells) rd =
     decode_cells cols (Suc i) cells (assign_property rd (colName cols i) (cell_text cell))"

definition decode_row :: "string list \<Rightarrow> Row \<Rightarrow> rowData" where
  "decode_row cols row = decode_cells cols 0 (row_cells row) Map.empty"

text \<open>The outer \<^verbatim>\<open>forEach\<close> over the rows, from row index \<open>index\<close>, on the two arrays.\<close>

fun decode_rows :: "nat \<Rightarrow> Row list \<Rightarrow> string list \<times> rowData list \<Rightarrow> string list \<times> rowData list" where
  "decode_rows index [] (cols, rws) = (cols, rws)"
| "decode_rows index (row # rest) (cols, rws) =
     (if index = 0 \<and> length cols = 0
      then decode_rows (Suc index) rest (cols @ map cell_text (row_cells row), rws)
      else decode_rows (Suc index) rest (cols, rws @ [decode_row cols row]))"

definition process_results :: "GetQueryResultsOutput \<Rightarrow> string list \<times> rowData list" where
  "process_results results =
     (case ResultSet results of
        None \<Rightarrow> ([], [])
      | Some rs \<Rightarrow>
          (case Rows rs of
             None \<Rightarrow> (metadata_columns rs, [])
           | Some rws \<Rightarrow> decode_rows 0 rws (metadata_columns rs, [])))"

subsection \<open>executeQuery\<close>

definition pollInterval :: int where
  "pollInterval = 2000"

text \<open>\<^verbatim>\<open>String.prototype.toLowerCase\<close> on the ASCII letters.\<close>

definition lower_char :: "char \<Rightarrow> char" where
  "lower_char c =
     (let n = (of_char c :: nat) in if 65 \<le> n \<and> n \<le> 90 then char_of (n + 32) else c)"

definition toLowerCase :: "string \<Rightarrow> string" where
  "toLowerCase str = map lower_char str"

text \<open>The optional chains read from a status result.\<close>

definition status_state :: "GetQueryExecutionOutput \<Rightarrow> string option" where
  "status_state statusResult =
     Option.bind (QueryExecution statusResult) (\<lambda>qe. Option.bind (Status qe) State)"

definition status_reason :: "GetQueryExecutionOutput \<Rightarrow> string option" where
  "status_reason statusResult =
     Option.bind (QueryExecution statusResult) (\<lambda>qe. Option.bind (Status qe) StateChangeReason)"

definition status_scanned :: "GetQueryExecutionOutput \<Rightarrow> int option" where
  "status_scanned statusResult =
     Option.bind (QueryExecution statusResult) (\<lambda>qe. Option.bind (Statistics qe) DataScannedInBytes)"

definition status_engine_time :: "GetQueryExecutionOutput \<Rightarrow> int option" where
  "status_engine_time statusResult =
     Option.bind (QueryExecution statusResult)
       (\<lambda>qe. Option.bind (Statistics qe) EngineExecutionTimeInMillis)"

text \<open>The envelopes returned by the function.\<close>

definition failure :: "string \<Rightarrow> 'd ToolResponse" where
  "failure msg = \<lparr>success = False, data = None, error = Some msg\<rparr>"

definition succeeded_response ::
  "string option \<Rightarrow> GetQueryExecutionOutput \<Rightarrow> GetQueryResultsOutput \<Rightarrow> QueryData ToolResponse" where
  "succeeded_response queryExecutionId statusResult results =
     (case process_results results of
        (cols, rws) \<Rightarrow>
          \<lparr>success = True,
           data = Some \<lparr>query_execution_id = queryExecutionId,
                        status = ''SUCCEEDED'',
                        columns = cols,
                        rows = rws,
                        row_count = length rws,
                        data_scanned_bytes = or_zero (status_scanned statusResult),
                        execution_time_ms = or_zero (status_engine_time statusResult)\<rparr>,
           error = None\<rparr>)"

definition terminal_failure_response :: "string \<Rightarrow> GetQueryExecutionOutput \<Rightarrow> QueryData ToolResponse" where
  "terminal_failure_response st statusResult =
     failure (''Query '' @ toLowerCase st @ '': ''
                @ or_string (status_reason statusResult) ''Unknown error'')"

definition timeout_response :: "int \<Rightarrow> QueryData ToolResponse" where
  "timeout_response maxWaitTime = failure (''Query timeout after '' @ show_int maxWaitTime @ ''ms'')"

text \<open>
  One pass through the body of the \<^verbatim>\<open>while\<close> loop, up to the sleep: the result is
  \<open>Inl\<close> for a rejected call, \<open>Inr (Some r)\<close> for a \<^verbatim>\<open>return r\<close>, and \<open>Inr None\<close>
  when the body falls through to the sleep.
\<close>

definition loop_body ::
  "server \<Rightarrow> string option \<Rightarrow> call list \<Rightarrow> (js_error + QueryData ToolResponse option) \<times> call list" where
  "loop_body s queryExecutionId h =
     (case getQueryExecution s h queryExecutionId of
        Inl err \<Rightarrow> (Inl err, h @ [GetQueryExecution queryExecutionId])
      | Inr statusResult \<Rightarrow>
          (let h1 = h @ [GetQueryExecution queryExecutionId] in
           case status_state statusResult of
             None \<Rightarrow> (Inr None, h1)
           | Some st \<Rightarrow>
               if st = ''SUCCEEDED'' then
                 (case getQueryResults s h1 queryExecutionId 1000 of
                    Inl err \<Rightarrow> (Inl err, h1 @ [GetQueryResults queryExecutionId 1000])
                  | Inr results \<Rightarrow>
                      (Inr (Some (succeeded_response queryExecutionId statusResult results)),
                       h1 @ [GetQueryResults queryExecutionId 1000]))
               else if st = ''FAILED'' \<or> st = ''CANCELLED'' then
                 (Inr (Some (terminal_failure_response st statusResult)), h1)
               else (Inr None, h1)))"

text \<open>The \<^verbatim>\<open>while (waitTime < maxWaitTime)\<close> loop and the return after it.\<close>

function poll ::
  "server \<Rightarrow> string option \<Rightarrow> int \<Rightarrow> call list \<Rightarrow> (js_error + QueryData ToolResponse) \<times> call list" where
  "poll s queryExecutionId waitTime h =
     (if waitTime < QUERY_TIMEOUT s then
        (case loop_body s queryExecutionId h of
           (Inl err, h1) \<Rightarrow> (Inl err, h1)
         | (Inr (Some r), h1) \<Rightarrow> (Inr r, h1)
         | (Inr None, h1) \<Rightarrow>
             poll s queryExecutionId (waitTime + pollInterval) (h1 @ [Sleep pollInterval]))
      else (Inr (timeout_response (QUERY_TIMEOUT s)), h))"
  by pat_completeness auto
termination
  by (relation "measure (\<lambda>(s, q, waitTime, h). nat (QUERY_TIMEOUT s - waitTime))")
     (auto simp: pollInterval_def)

declare poll.simps [simp del]

text \<open>The body of the \<^verbatim>\<open>try\<close> block.\<close>

definition executeQuery_try ::
  "server \<Rightarrow> string \<Rightarrow> string option \<Rightarrow> call list \<Rightarrow> (js_error + QueryData ToolResponse) \<times> call list" where
  "executeQuery_try s sql database h =
     (let targetDatabase = or_string database (ATHENA_DATABASE s) in
      case getQueryResultLocation s h of
        (Inl err, h1) \<Rightarrow> (Inl err, h1)
      | (Inr resultLocation, h1) \<Rightarrow>
          (let startParams = \<lparr>QueryString = sql, Database = targetDatabase,
                               WorkGroup = ATHENA_WORKGROUP s, OutputLocation = resultLocation\<rparr>
           in case startQueryExecution s h1 startParams of
                Inl err \<Rightarrow> (Inl err, h1 @ [StartQueryExecution startParams])
              | Inr startResult \<Rightarrow>
                  poll s (QueryExecutionId startResult) 0 (h1 @ [StartQueryExecution startParams])))"

text \<open>
  The function: the result is the envelope, or \<open>Inl\<close> for an exception that leaves the
  function, and the log of the calls made.
\<close>

definition executeQuery ::
  "server \<Rightarrow> string \<Rightarrow> string option \<Rightarrow> (js_error + QueryData ToolResponse) \<times> call list" where
  "executeQuery s sql database =
     (if \<not> athena s then (Inr (failure ''AWS Athena not initialized. Check credentials.''), [])
      else
        (case executeQuery_try s sql database [] of
           (Inr r, h) \<Rightarrow> (Inr r, h)
         | (Inl err, h) \<Rightarrow> (Inr (failure (''Execution error: '' @ message err)), h)))"

subsection \<open>cancelQuery\<close>

definition cancelQuery :: "server \<Rightarrow> string \<Rightarrow> (js_error + CancelData ToolResponse) \<times> call list" where
  "cancelQuery s queryId =
     (if \<not> athena s then (Inr (failure ''AWS Athena not initialized. Check credentials.''), [])
      else
        (case stopQueryExecution s [] queryId of
           Inr u \<Rightarrow>
             (Inr \<lparr>success = True,
                   data = Some \<lparr>cancel_query_execution_id = queryId,
                                cancel_status = ''CANCELLED'',
                                cancel_message = ''Query cancellation requested''\<rparr>,
                   error = None\<rparr>,
              [StopQueryExecution queryId])
         | Inl err \<Rightarrow>
             (Inr (failure (''Error cancelling query: '' @ message err)),
              [StopQueryExecution queryId])))"

subsection \<open>Envelopes and stub engines\<close>

text \<open>
  An envelope is well formed when it carries data exactly on success and an error text
  exactly on failure.
\<close>

definition well_formed :: "'d ToolResponse \<Rightarrow> bool" where
  "well_formed r = (success r = (data r \<noteq> None) \<and> success r = (error r = None))"

text \<open>
  Stub engines for concrete runs: the submission is accepted, the answer to a status read
  depends on the number of status reads made before it, and the result set is fixed.
\<close>

definition status_output :: "string \<Rightarrow> string option \<Rightarrow> GetQueryExecutionOutput" where
  "status_output st reason =
     \<lparr>QueryExecution = Some \<lparr>Status = Some \<lparr>State = Some st, StateChangeReason = reason\<rparr>,
                              Statistics = None\<rparr>\<rparr>"

definition stub_engine ::
  "int \<Rightarrow> (nat \<Rightarrow> string \<times> string option) \<Rightarrow> GetQueryResultsOutput \<Rightarrow> server" where
  "stub_engine timeoutMs states results =
     \<lparr>region = ''us-east-1'',
      ATHENA_DATABASE = ''default'',
      ATHENA_WORKGROUP = ''primary'',
      QUERY_TIMEOUT = timeoutMs,
      athena = True,
      getCallerIdentity = (\<lambda>h. Inr \<lparr>Account = Some ''123456789012''\<rparr>),
      startQueryExecution = (\<lambda>h p. Inr \<lparr>QueryExecutionId = Some ''exec-123''\<rparr>),
      getQueryExecution =
        (\<lambda>h q. Inr (status_output (fst (states (status_calls h))) (snd (states (status_calls h))))),
      getQueryResults = (\<lambda>h q n. Inr results),
      stopQueryExecution = (\<lambda>h q. Inr ())\<rparr>"

definition text_row :: "string list \<Rightarrow> Row" where
  "text_row cells = \<lparr>Data = Some (map (\<lambda>v. \<lparr>VarCharValue = Some v\<rparr>) cells)\<rparr>"

definition no_results :: GetQueryResultsOutput where
  "no_results = \<lparr>ResultSet = None\<rparr>"

text \<open>Two raw result sets: one without column metadata, one with a row shorter than the
  column list.\<close>

definition headerless_results :: GetQueryResultsOutput where
  "headerless_results =
     \<lparr>ResultSet = Some \<lparr>Rows = Some [text_row [''id'', ''name''], text_row [''1'', ''alice''],
                                     text_row [''2'', ''bob'']],
                        ResultSetMetadata = None\<rparr>\<rparr>"

definition short_row_results :: GetQueryResultsOutput where
  "short_row_results =
     \<lparr>ResultSet = Some \<lparr>Rows = Some [text_row [''1'']],
                        ResultSetMetadata =
                          Some \<lparr>ColumnInfo = Some [\<lparr>Name = Some ''id''\<rparr>, \<lparr>Name = Some ''name''\<rparr>]\<rparr>\<rparr>\<rparr>"

section \<open>Properties of the log and of the polling loop\<close>


lemma status_calls_append: "status_calls (a @ b) = status_calls a + status_calls b"
  by (induction a rule: status_calls.induct) simp_all

lemma submissions_append: "submissions (a @ b) = submissions a @ submissions b"
  by (induction a rule: submissions.induct) simp_all

lemma loop_body_log:
  "snd (loop_body s q h) = h @ [GetQueryExecution q] \<or>
   snd (loop_body s q h) = h @ [GetQueryExecution q, GetQueryResults q 1000]"
  by (simp add: loop_body_def Let_def split: sum.split option.split)

lemma loop_body_status_calls: "status_calls (snd (loop_body s q h)) = Suc (status_calls h)"
  using loop_body_log [of s q h] by (auto simp: status_calls_append)

lemma loop_body_submissions: "submissions (snd (loop_body s q h)) = submissions h"
  using loop_body_log [of s q h] by (auto simp: submissions_append)

lemma loop_body_well_formed:
  "loop_body s q h = (Inr (Some r), h1) \<Longrightarrow>
     well_formed r"
  by (auto simp: loop_body_def Let_def succeeded_response_def terminal_failure_response_def
      failure_def well_formed_def split: sum.splits option.splits if_splits prod.splits)

lemma loop_body_nonterminal:
  assumes "getQueryExecution s h q = Inr r"
    and "status_state r \<noteq> Some ''SUCCEEDED''"
    and "status_state r \<noteq> Some ''FAILED''"
    and "status_state r \<noteq> Some ''CANCELLED''"
  shows "loop_body s q h = (Inr None, h @ [GetQueryExecution q])"
  using assms by (simp add: loop_body_def Let_def split: option.split)

lemma poll_timeout:
  "\<not> w < QUERY_TIMEOUT s \<Longrightarrow> poll s q w h = (Inr (timeout_response (QUERY_TIMEOUT s)), h)"
  by (simp add: poll.simps)

lemma poll_raise:
  "w < QUERY_TIMEOUT s \<Longrightarrow> loop_body s q h = (Inl e, h1) \<Longrightarrow> poll s q w h = (Inl e, h1)"
  by (simp add: poll.simps)

lemma poll_return:
  "w < QUERY_TIMEOUT s \<Longrightarrow> loop_body s q h = (Inr (Some r), h1) \<Longrightarrow> poll s q w h = (Inr r, h1)"
  by (simp add: poll.simps)

lemma poll_continue:
  "w < QUERY_TIMEOUT s \<Longrightarrow> loop_body s q h = (Inr None, h1) \<Longrightarrow>
     poll s q w h = poll s q (w + pollInterval) (h1 @ [Sleep pollInterval])"
  by (subst poll.simps) simp

text \<open>An induction rule for the loop that follows the four ways one pass can end.\<close>

lemma poll_pass_induct [consumes 0, case_names timeout raise return continue]:
  assumes "\<And>s q w h. \<not> w < QUERY_TIMEOUT s \<Longrightarrow> P s q w h"
    and "\<And>s q w h e h1. w < QUERY_TIMEOUT s \<Longrightarrow> loop_body s q h = (Inl e, h1) \<Longrightarrow> P s q w h"
    and "\<And>s q w h r h1. w < QUERY_TIMEOUT s \<Longrightarrow> loop_body s q h = (Inr (Some r), h1) \<Longrightarrow> P s q w h"
    and "\<And>s q w h h1. w < QUERY_TIMEOUT s \<Longrightarrow> loop_body s q h = (Inr None, h1) \<Longrightarrow>
           P s q (w + pollInterval) (h1 @ [Sleep pollInterval]) \<Longrightarrow> P s q w h"
  shows "P s q w h"
proof (induction s q w h rule: poll.induct)
  case (1 s q w h)
  show ?case
  proof (cases "w < QUERY_TIMEOUT s")
    case False
    then show ?thesis by (rule assms(1))
  next
    case True
    obtain res h1 where lb: "loop_body s q h = (res, h1)"
      by (cases "loop_body s q h")
    show ?thesis
    proof (cases res)
      case (Inl e)
      with True lb show ?thesis by (auto intro: assms(2))
    next
      case (Inr v)
      show ?thesis
      proof (cases v)
        case None
        with True lb Inr have "P s q (w + pollInterval) (h1 @ [Sleep pollInterval])"
          using "1.IH" by simp
        with True lb Inr None show ?thesis by (auto intro: assms(4))
      next
        case (Some r)
        with True lb Inr show ?thesis by (auto intro: assms(3))
      qed
    qed
  qed
qed

lemma poll_submissions: "submissions (snd (poll s q w h)) = submissions h"
proof (induction s q w h rule: poll_pass_induct)
  case (timeout s q w h)
  then show ?case by (simp add: poll_timeout)
next
  case (raise s q w h e h1)
  then show ?case using loop_body_submissions [of s q h] by (simp add: poll_raise)
next
  case (return s q w h r h1)
  then show ?case using loop_body_submissions [of s q h] by (simp add: poll_return)
next
  case (continue s q w h h1)
  then show ?case using loop_body_submissions [of s q h]
    by (simp add: poll_continue submissions_append)
qed

lemma poll_status_calls_mono: "status_calls h \<le> status_calls (snd (poll s q w h))"
proof (induction s q w h rule: poll_pass_induct)
  case (timeout s q w h)
  then show ?case by (simp add: poll_timeout)
next
  case (raise s q w h e h1)
  then show ?case using loop_body_status_calls [of s q h] by (simp add: poll_raise)
next
  case (return s q w h r h1)
  then show ?case using loop_body_status_calls [of s q h] by (simp add: poll_return)
next
  case (continue s q w h h1)
  then show ?case using loop_body_status_calls [of s q h]
    by (simp add: poll_continue status_calls_append)
qed

lemma poll_well_formed:
  "poll s q w h = (Inr r, h') \<Longrightarrow> well_formed r"
proof (induction s q w h rule: poll_pass_induct)
  case (timeout s q w h)
  then show ?case by (auto simp: poll_timeout timeout_response_def failure_def well_formed_def)
next
  case (raise s q w h e h1)
  then show ?case by (simp add: poll_raise)
next
  case (return s q w h r' h1)
  then show ?case using loop_body_well_formed [of s q h r' h1] by (auto simp: poll_return)
next
  case (continue s q w h h1)
  then show ?case by (simp add: poll_continue)
qed

lemma poll_first_check:
  assumes "w < QUERY_TIMEOUT s"
  shows "Suc (status_calls h) \<le> status_calls (snd (poll s q w h))"
proof -
  obtain res h1 where lb: "loop_body s q h = (res, h1)"
    by (cases "loop_body s q h")
  have h1: "status_calls h1 = Suc (status_calls h)"
    using loop_body_status_calls [of s q h] lb by simp
  show ?thesis
  proof (cases res)
    case (Inl e)
    with assms lb h1 show ?thesis by (simp add: poll_raise)
  next
    case (Inr v)
    show ?thesis
    proof (cases v)
      case None
      have "status_calls (h1 @ [Sleep pollInterval])
              \<le> status_calls (snd (poll s q (w + pollInterval) (h1 @ [Sleep pollInterval])))"
        by (rule poll_status_calls_mono)
      with assms lb Inr None h1 show ?thesis
        by (simp add: poll_continue status_calls_append)
    next
      case (Some r)
      with assms lb Inr h1 show ?thesis by (simp add: poll_return)
    qed
  qed
qed

text \<open>
  While the engine keeps answering with a non-terminal state, the loop goes from pass
  \<open>k\<close> to pass \<open>N\<close> with one status read and one sleep per pass.
\<close>

lemma poll_skip_waiting:
  assumes nonterm: "\<And>h. status_calls h < N \<Longrightarrow>
             \<exists>r. getQueryExecution s h q = Inr r \<and> status_state r \<noteq> Some ''SUCCEEDED''
               \<and> status_state r \<noteq> Some ''FAILED'' \<and> status_state r \<noteq> Some ''CANCELLED''"
    and bound: "int N * pollInterval < QUERY_TIMEOUT s + pollInterval"
  shows "status_calls h = k \<Longrightarrow> k \<le> N \<Longrightarrow>
         \<exists>h'. status_calls h' = N \<and> submissions h' = submissions h \<and>
              poll s q (int k * pollInterval) h = poll s q (int N * pollInterval) h'"
proof (induction "N - k" arbitrary: k h)
  case 0
  then have "k = N" by simp
  with 0 show ?case by blast
next
  case (Suc d)
  then have kN: "k < N" by simp
  with Suc.prems nonterm obtain r where r: "getQueryExecution s h q = Inr r"
    "status_state r \<noteq> Some ''SUCCEEDED''" "status_state r \<noteq> Some ''FAILED''"
    "status_state r \<noteq> Some ''CANCELLED''"
    by blast
  then have lb: "loop_body s q h = (Inr None, h @ [GetQueryExecution q])"
    by (rule loop_body_nonterminal)
  from kN have "int k + 1 \<le> int N" by simp
  then have "(int k + 1) * pollInterval \<le> int N * pollInterval"
    by (simp add: pollInterval_def)
  with bound have lt: "int k * pollInterval < QUERY_TIMEOUT s"
    by (simp add: algebra_simps)
  let ?h = "(h @ [GetQueryExecution q]) @ [Sleep pollInterval]"
  have step: "poll s q (int k * pollInterval) h = poll s q (int (Suc k) * pollInterval) ?h"
    using poll_continue [OF lt lb] by (simp add: algebra_simps)
  have "d = N - Suc k" using Suc.hyps by simp
  moreover have "status_calls ?h = Suc k" using Suc.prems by (simp add: status_calls_append)
  moreover have "Suc k \<le> N" using kN by simp
  ultimately obtain h' where "status_calls h' = N" "submissions h' = submissions ?h"
    "poll s q (int (Suc k) * pollInterval) ?h = poll s q (int N * pollInterval) h'"
    using Suc.hyps(1) [of "Suc k" ?h] by blast
  with step show ?case by (auto simp: submissions_append)
qed

lemma executeQuery_try_well_formed:
  "executeQuery_try s sql database h = (Inr r, h') \<Longrightarrow>
     well_formed r"
  by (auto simp: executeQuery_try_def getQueryResultLocation_def Let_def
      split: sum.splits dest: poll_well_formed)

lemma toLowerCase_FAILED: "toLowerCase ''FAILED'' = ''failed''"
  by code_simp

lemma toLowerCase_CANCELLED: "toLowerCase ''CANCELLED'' = ''cancelled''"
  by code_simp

lemma show_int_6000: "show_int 6000 = ''6000''"
  by (simp add: show_int_def show_nat.simps)

lemmas run_defs =
  executeQuery_def executeQuery_try_def getQueryResultLocation_def loop_body_def
  terminal_failure_response_def timeout_response_def failure_def
  status_state_def status_reason_def or_string_def template_string_def pollInterval_def Let_def

lemmas stub_defs = stub_engine_def status_output_def no_results_def

lemma loop_body_terminal_log:
  assumes "getQueryExecution s h q = Inr r" and "status_state r = Some ''SUCCEEDED''"
  shows "fst (loop_body s q h) \<noteq> Inr None"
    and "snd (loop_body s q h) = h @ [GetQueryExecution q, GetQueryResults q 1000]"
  using assms by (simp_all add: loop_body_def Let_def split: sum.split)

lemma loop_body_failed:
  assumes "getQueryExecution s h q = Inr r" and "status_state r = Some ''FAILED''"
  shows "loop_body s q h =
           (Inr (Some (failure (''Query failed: '' @ or_string (status_reason r) ''Unknown error''))),
            h @ [GetQueryExecution q])"
  using assms by (simp add: loop_body_def Let_def terminal_failure_response_def toLowerCase_FAILED)

lemma poll_stops:
  assumes "w < QUERY_TIMEOUT s" and "fst (loop_body s q h) \<noteq> Inr None"
  shows "snd (poll s q w h) = snd (loop_body s q h)"
proof -
  obtain res h1 where lb: "loop_body s q h = (res, h1)"
    by (cases "loop_body s q h")
  show ?thesis
  proof (cases res)
    case (Inl e)
    with assms lb show ?thesis by (simp add: poll_raise)
  next
    case (Inr v)
    with assms lb obtain r where "v = Some r" by (cases v) auto
    with assms lb Inr show ?thesis by (simp add: poll_return)
  qed
qed

lemma executeQuery_try_accepted:
  assumes "\<forall>h p. \<exists>r. startQueryExecution s h p = Inr r"
  shows "\<exists>q h. status_calls h = 0 \<and> executeQuery_try s sql database [] = poll s q 0 h"
proof -
  let ?loc = "fst (getQueryResultLocation s [])"
  obtain uri where loc: "getQueryResultLocation s [] = (Inr uri, [GetCallerIdentity])"
    by (cases "getCallerIdentity s []") (simp_all add: getQueryResultLocation_def)
  let ?p = "\<lparr>QueryString = sql, Database = or_string database (ATHENA_DATABASE s),
             WorkGroup = ATHENA_WORKGROUP s, OutputLocation = uri\<rparr>"
  from assms obtain r where "startQueryExecution s [GetCallerIdentity] ?p = Inr r"
    by blast
  with loc have "executeQuery_try s sql database [] =
      poll s (QueryExecutionId r) 0 ([GetCallerIdentity] @ [StartQueryExecution ?p])"
    by (simp add: executeQuery_try_def Let_def)
  moreover have "status_calls ([GetCallerIdentity] @ [StartQueryExecution ?p]) = 0"
    by simp
  ultimately show ?thesis by blast
qed

lemma executeQuery_log: "athena s \<Longrightarrow> snd (executeQuery s sql database) = snd (executeQuery_try s sql database [])"
  by (simp add: executeQuery_def split: prod.split sum.split)

lemma executeQuery_value:
  "athena s \<Longrightarrow> fst (executeQuery_try s sql database []) = Inr r \<Longrightarrow> fst (executeQuery s sql database) = Inr r"
  by (auto simp: executeQuery_def split: prod.split sum.split)

lemma failed_after_waiting:
  assumes "athena s"
    and "\<forall>h p. \<exists>r. startQueryExecution s h p = Inr r"
    and "int N * pollInterval < QUERY_TIMEOUT s"
    and "\<forall>h q. status_calls h < N \<longrightarrow>
           (\<exists>r. getQueryExecution s h q = Inr r \<and> status_state r \<noteq> Some ''SUCCEEDED''
              \<and> status_state r \<noteq> Some ''FAILED'' \<and> status_state r \<noteq> Some ''CANCELLED'')"
    and "\<forall>h q. status_calls h = N \<longrightarrow>
           (\<exists>r. getQueryExecution s h q = Inr r \<and> status_state r = Some ''FAILED''
              \<and> status_reason r = reason)"
  shows "fst (executeQuery s sql database) =
           Inr (failure (''Query failed: '' @ or_string reason ''Unknown error''))"
proof -
  from assms(2) obtain q h0 where h0: "status_calls h0 = 0"
    and tr: "executeQuery_try s sql database [] = poll s q 0 h0"
    using executeQuery_try_accepted by blast
  have "\<exists>h'. status_calls h' = N \<and> submissions h' = submissions h0 \<and>
          poll s q (int 0 * pollInterval) h0 = poll s q (int N * pollInterval) h'"
  proof (rule poll_skip_waiting [where k = 0 and h = h0])
    fix h assume "status_calls h < N"
    with assms(4) show "\<exists>r. getQueryExecution s h q = Inr r \<and> status_state r \<noteq> Some ''SUCCEEDED''
                 \<and> status_state r \<noteq> Some ''FAILED'' \<and> status_state r \<noteq> Some ''CANCELLED''"
      by blast
  next
    show "int N * pollInterval < QUERY_TIMEOUT s + pollInterval"
      using assms(3) by (simp add: pollInterval_def)
  qed (simp_all add: h0)
  then obtain h' where h': "status_calls h' = N"
    and skip: "poll s q 0 h0 = poll s q (int N * pollInterval) h'"
    by auto
  from assms(5) h' obtain r where r: "getQueryExecution s h' q = Inr r"
    "status_state r = Some ''FAILED''" "status_reason r = reason"
    by blast
  have "poll s q (int N * pollInterval) h' =
          (Inr (failure (''Query failed: '' @ or_string reason ''Unknown error'')),
           h' @ [GetQueryExecution q])"
    using assms(3) loop_body_failed [OF r(1,2)] r(3) by (simp add: poll_return)
  with tr skip assms(1) show ?thesis by (simp add: executeQuery_value)
qed

lemma timeout_after_waiting:
  assumes "athena s"
    and "\<forall>h p. \<exists>r. startQueryExecution s h p = Inr r"
    and "QUERY_TIMEOUT s = 3 * pollInterval"
    and "\<forall>h q. \<exists>r. getQueryExecution s h q = Inr r \<and> status_state r \<noteq> Some ''SUCCEEDED''
              \<and> status_state r \<noteq> Some ''FAILED'' \<and> status_state r \<noteq> Some ''CANCELLED''"
  shows "\<exists>h. executeQuery s sql database = (Inr (timeout_response (QUERY_TIMEOUT s)), h)
            \<and> status_calls h = 3"
proof -
  from assms(2) obtain q h0 where h0: "status_calls h0 = 0"
    and tr: "executeQuery_try s sql database [] = poll s q 0 h0"
    using executeQuery_try_accepted by blast
  have "\<exists>h'. status_calls h' = 3 \<and> submissions h' = submissions h0 \<and>
          poll s q (int 0 * pollInterval) h0 = poll s q (int 3 * pollInterval) h'"
  proof (rule poll_skip_waiting [where k = 0 and h = h0])
    fix h :: "call list"
    from assms(4) show "\<exists>r. getQueryExecution s h q = Inr r \<and> status_state r \<noteq> Some ''SUCCEEDED''
                 \<and> status_state r \<noteq> Some ''FAILED'' \<and> status_state r \<noteq> Some ''CANCELLED''"
      by blast
  next
    show "int 3 * pollInterval < QUERY_TIMEOUT s + pollInterval"
      using assms(3) by (simp add: pollInterval_def)
  qed (simp_all add: h0)
  then obtain h' where h': "status_calls h' = 3"
    and skip: "poll s q 0 h0 = poll s q (3 * pollInterval) h'"
    by auto
  have "poll s q (3 * pollInterval) h' = (Inr (timeout_response (QUERY_TIMEOUT s)), h')"
    using assms(3) by (simp add: poll_timeout)
  with tr skip assms(1) have "executeQuery s sql database = (Inr (timeout_response (QUERY_TIMEOUT s)), h')"
    by (simp add: executeQuery_def)
  with h' show ?thesis by blast
qed

lemma show_int_0: "show_int 0 = ''0''"
  by (simp add: show_int_def show_nat.simps)

lemma show_int_1000: "show_int 1000 = ''1000''"
  by (simp add: show_int_def show_nat.simps)

lemma executeQuery_try_submissions:
  "\<exists>uri. fst (getQueryResultLocation s []) = Inr uri \<and>
     submissions (snd (executeQuery_try s sql database [])) =
       [\<lparr>QueryString = sql, Database = or_string database (ATHENA_DATABASE s),
         WorkGroup = ATHENA_WORKGROUP s, OutputLocation = uri\<rparr>]"
proof -
  obtain uri where loc: "getQueryResultLocation s [] = (Inr uri, [GetCallerIdentity])"
    by (cases "getCallerIdentity s []") (simp_all add: getQueryResultLocation_def)
  let ?p = "\<lparr>QueryString = sql, Database = or_string database (ATHENA_DATABASE s),
             WorkGroup = ATHENA_WORKGROUP s, OutputLocation = uri\<rparr>"
  have "submissions (snd (executeQuery_try s sql database [])) = [?p]"
  proof (cases "startQueryExecution s [GetCallerIdentity] ?p")
    case (Inl e)
    with loc show ?thesis by (simp add: executeQuery_try_def Let_def)
  next
    case (Inr r)
    with loc show ?thesis by (simp add: executeQuery_try_def Let_def poll_submissions)
  qed
  with loc show ?thesis by simp
qed

lemma timeout_needs_a_status_read:
  assumes "0 < QUERY_TIMEOUT s"
    and "executeQuery s sql database = (Inr r, h)"
    and "error r = Some (''Query timeout after '' @ t)"
  shows "1 \<le> status_calls h"
proof (cases "athena s")
  case False
  with assms(2,3) show ?thesis by (auto simp: executeQuery_def failure_def)
next
  case True
  obtain uri where loc: "getQueryResultLocation s [] = (Inr uri, [GetCallerIdentity])"
    by (cases "getCallerIdentity s []") (simp_all add: getQueryResultLocation_def)
  let ?p = "\<lparr>QueryString = sql, Database = or_string database (ATHENA_DATABASE s),
             WorkGroup = ATHENA_WORKGROUP s, OutputLocation = uri\<rparr>"
  show ?thesis
  proof (cases "startQueryExecution s [GetCallerIdentity] ?p")
    case (Inl e)
    with loc True assms(2,3) show ?thesis
      by (auto simp: executeQuery_def executeQuery_try_def Let_def failure_def)
  next
    case (Inr sr)
    let ?h0 = "[GetCallerIdentity] @ [StartQueryExecution ?p]"
    from Inr loc have "executeQuery_try s sql database [] = poll s (QueryExecutionId sr) 0 ?h0"
      by (simp add: executeQuery_try_def Let_def)
    with True have "snd (executeQuery s sql database) = snd (poll s (QueryExecutionId sr) 0 ?h0)"
      by (simp add: executeQuery_log)
    moreover have "Suc (status_calls ?h0) \<le> status_calls (snd (poll s (QueryExecutionId sr) 0 ?h0))"
      using assms(1) by (rule poll_first_check)
    ultimately show ?thesis using assms(2) by simp
  qed
qed

lemma executeQuery_submissions:
  assumes "athena s"
  shows "\<exists>uri. fst (getQueryResultLocation s []) = Inr uri \<and>
     submissions (snd (executeQuery s sql database)) =
       [\<lparr>QueryString = sql, Database = or_string database (ATHENA_DATABASE s),
         WorkGroup = ATHENA_WORKGROUP s, OutputLocation = uri\<rparr>]"
  using executeQuery_try_submissions [of s sql database] assms
  by (simp add: executeQuery_log)

subsection \<open>The decoder\<close>

lemmas decode_defs =
  process_results_def metadata_columns_def decode_row_def row_cells_def cell_text_def
  colName_def text_row_def or_string_def assign_property_def

lemma decode_rows_data:
  "0 < index \<Longrightarrow> decode_rows index rws (cols, acc) = (cols, acc @ map (decode_row cols) rws)"
  by (induction rws arbitrary: index acc) simp_all

lemma dom_assign_property:
  "dom (assign_property rd name v) = dom rd \<union> ({name} - {''__proto__''})"
  by (auto simp: assign_property_def)

lemma decode_cells_keys:
  "dom (decode_cells cols i cells rd) =
     dom rd \<union> (colName cols ` {i ..< i + length cells} - {''__proto__''})"
proof (induction cells arbitrary: i rd)
  case Nil
  show ?case by simp
next
  case (Cons c cs)
  have "{i ..< i + length (c # cs)} = insert i {Suc i ..< Suc i + length cs}"
    by auto
  with Cons [of "Suc i"] show ?case
    by (auto simp: dom_assign_property)
qed

lemma decode_cells_other:
  "k \<notin> colName cols ` {i ..< i + length cells} \<Longrightarrow>
     decode_cells cols i cells rd k = rd k"
proof (induction cells arbitrary: i rd)
  case Nil
  show ?case by simp
next
  case (Cons c cs)
  have split: "{i ..< i + length (c # cs)} = insert i {Suc i ..< Suc i + length cs}"
    by auto
  with Cons.prems have k: "k \<noteq> colName cols i" "k \<notin> colName cols ` {Suc i ..< Suc i + length cs}"
    by auto
  from Cons.IH [OF k(2)] k(1) show ?case
    by (simp add: assign_property_def)
qed

lemma decode_cells_lookup:
  "j < length cells \<Longrightarrow>
   colName cols (i + j) \<noteq> ''__proto__'' \<Longrightarrow>
   (\<forall>j'. j < j' \<and> j' < length cells \<longrightarrow> colName cols (i + j') \<noteq> colName cols (i + j)) \<Longrightarrow>
     decode_cells cols i cells rd (colName cols (i + j)) = Some (cell_text (cells ! j))"
proof (induction cells arbitrary: i j rd)
  case Nil
  then show ?case by simp
next
  case (Cons c cs)
  show ?case
  proof (cases j)
    case 0
    have "colName cols i \<notin> colName cols ` {Suc i ..< Suc i + length cs}"
    proof
      assume "colName cols i \<in> colName cols ` {Suc i ..< Suc i + length cs}"
      then obtain m where m: "Suc i \<le> m" "m < Suc i + length cs" "colName cols i = colName cols m"
        by auto
      then have "j < m - i \<and> m - i < length (c # cs)" using 0 by auto
      with Cons.prems(3) have "colName cols (i + (m - i)) \<noteq> colName cols (i + j)" by blast
      moreover have "i + (m - i) = m" using m by simp
      ultimately show False using m 0 by simp
    qed
    then have "decode_cells cols (Suc i) cs (assign_property rd (colName cols i) (cell_text c))
                 (colName cols i)
               = assign_property rd (colName cols i) (cell_text c) (colName cols i)"
      by (rule decode_cells_other)
    with 0 Cons.prems(2) show ?thesis by (simp add: assign_property_def)
  next
    case (Suc j0)
    with Cons.prems have "j0 < length cs" by simp
    moreover from Suc Cons.prems(2) have "colName cols (Suc i + j0) \<noteq> ''__proto__''" by simp
    moreover have "\<forall>j'. j0 < j' \<and> j' < length cs \<longrightarrow>
                     colName cols (Suc i + j') \<noteq> colName cols (Suc i + j0)"
    proof (intro allI impI)
      fix j' assume "j0 < j' \<and> j' < length cs"
      then have "j < Suc j' \<and> Suc j' < length (c # cs)" using Suc by simp
      with Cons.prems(3) have "colName cols (i + Suc j') \<noteq> colName cols (i + j)" by blast
      with Suc show "colName cols (Suc i + j') \<noteq> colName cols (Suc i + j0)" by simp
    qed
    ultimately have "decode_cells cols (Suc i) cs
                       (assign_property rd (colName cols i) (cell_text c))
                       (colName cols (Suc i + j0)) = Some (cell_text (cs ! j0))"
      by (rule Cons.IH)
    with Suc show ?thesis by simp
  qed
qed

text \<open>A cell under a column named \<^verbatim>\<open>__proto__\<close> leaves no property in the row object.\<close>

lemma decode_row_proto_column:
  "decode_row [''__proto__'', ''b''] (text_row [''x'', ''y'']) = [''b'' \<mapsto> ''y'']"
  by (simp add: decode_row_def row_cells_def cell_text_def colName_def text_row_def
      or_string_def assign_property_def)

section \<open>The claims\<close>

text \<open>
  Claim C1. Whatever the collaborators do, also when any of them rejects, a call of
  \<^verbatim>\<open>executeQuery\<close> ends and returns one envelope: nothing is thrown past the function.
  The envelope is a success carrying data, or a failure carrying an error text (the
  timeout is the failure whose text is \<^verbatim>\<open>Query timeout after <n>ms\<close>).
\<close>

theorem executeQuery_returns_one_envelope:
  "\<exists>r h. executeQuery s sql database = (Inr r, h) \<and>
          success r = (data r \<noteq> None) \<and> success r = (error r = None)"
proof (cases "athena s")
  case False
  then show ?thesis by (simp add: executeQuery_def failure_def)
next
  case True
  obtain res h where t: "executeQuery_try s sql database [] = (res, h)"
    by (cases "executeQuery_try s sql database []")
  show ?thesis
  proof (cases res)
    case (Inl e)
    with True t show ?thesis by (simp add: executeQuery_def failure_def)
  next
    case (Inr r)
    with True t executeQuery_try_well_formed [of s sql database "[]" r h]
    show ?thesis by (auto simp: executeQuery_def well_formed_def)
  qed
qed

text \<open>
  Claim C2. Against an engine that answers \<^verbatim>\<open>QUEUED\<close> to the first \<open>N\<close> status reads and
  \<^verbatim>\<open>SUCCEEDED\<close> to the next one, with \<open>N * pollInterval < QUERY_TIMEOUT\<close>, the call makes
  exactly \<open>N + 1\<close> status reads: the loop is left at the first terminal status.
\<close>

theorem status_reads_until_succeeded:
  assumes "athena s"
    and "\<forall>h p. \<exists>r. startQueryExecution s h p = Inr r"
    and "int N * pollInterval < QUERY_TIMEOUT s"
    and "\<forall>h q. status_calls h < N \<longrightarrow>
           (\<exists>r. getQueryExecution s h q = Inr r \<and> status_state r = Some ''QUEUED'')"
    and "\<forall>h q. status_calls h = N \<longrightarrow>
           (\<exists>r. getQueryExecution s h q = Inr r \<and> status_state r = Some ''SUCCEEDED'')"
  shows "status_calls (snd (executeQuery s sql database)) = N + 1"
proof -
  from assms(2) obtain q h0 where h0: "status_calls h0 = 0"
    and tr: "executeQuery_try s sql database [] = poll s q 0 h0"
    using executeQuery_try_accepted by blast
  have "\<exists>h'. status_calls h' = N \<and> submissions h' = submissions h0 \<and>
          poll s q (int 0 * pollInterval) h0 = poll s q (int N * pollInterval) h'"
  proof (rule poll_skip_waiting [where k = 0 and h = h0])
    fix h assume "status_calls h < N"
    with assms(4) obtain r where "getQueryExecution s h q = Inr r" "status_state r = Some ''QUEUED''"
      by blast
    then show "\<exists>r. getQueryExecution s h q = Inr r \<and> status_state r \<noteq> Some ''SUCCEEDED''
                 \<and> status_state r \<noteq> Some ''FAILED'' \<and> status_state r \<noteq> Some ''CANCELLED''"
      by simp
  next
    show "int N * pollInterval < QUERY_TIMEOUT s + pollInterval"
      using assms(3) by (simp add: pollInterval_def)
  qed (simp_all add: h0)
  then obtain h' where h': "status_calls h' = N"
    and skip: "poll s q 0 h0 = poll s q (int N * pollInterval) h'"
    by auto
  from assms(5) h' obtain r where r: "getQueryExecution s h' q = Inr r"
    "status_state r = Some ''SUCCEEDED''"
    by blast
  have "snd (poll s q (int N * pollInterval) h') = snd (loop_body s q h')"
    using assms(3) loop_body_terminal_log(1) [OF r] by (rule poll_stops)
  then have "snd (executeQuery s sql database) = h' @ [GetQueryExecution q, GetQueryResults q 1000]"
    using loop_body_terminal_log(2) [OF r] tr skip assms(1) by (simp add: executeQuery_log)
  with h' show ?thesis by (simp add: status_calls_append)
qed

theorem status_reads_until_succeeded_witness:
  "status_calls
     (snd (executeQuery
             (stub_engine 60000 (\<lambda>k. if k < 2 then (''QUEUED'', None) else (''SUCCEEDED'', None))
                no_results)
             ''SELECT 1'' None)) = 2 + 1"
  by (rule status_reads_until_succeeded)
     (simp_all add: stub_defs status_state_def pollInterval_def)

text \<open>
  Claim C3, as stated, fails: the error text of the envelope is not the reason reported by
  the engine but that reason behind the prefix \<^verbatim>\<open>Query failed: \<close>.
\<close>

theorem failed_reason_verbatim_counterexample:
  "fst (executeQuery (stub_engine 60000 (\<lambda>k. (''FAILED'', Some ''syntax error'')) no_results)
          ''SELECT 1'' None) =
     Inr \<lparr>success = False, data = None, error = Some ''Query failed: syntax error''\<rparr>
   \<and> ''Query failed: syntax error'' \<noteq> ''syntax error''"
  by (simp add: run_defs stub_defs poll.simps toLowerCase_FAILED)

text \<open>
  Claim C3, amended. When the engine reports \<^verbatim>\<open>FAILED\<close> after \<open>N\<close> non-terminal status reads
  (\<open>N * pollInterval < QUERY_TIMEOUT\<close>), the error text of the returned failure is
  \<^verbatim>\<open>Query failed: \<close> followed by the reason reported by the engine, unchanged, and it is
  \<^verbatim>\<open>Query failed: Unknown error\<close> when the engine reports no reason.
\<close>

theorem failed_reason_is_prefixed:
  assumes "athena s"
    and "\<forall>h p. \<exists>r. startQueryExecution s h p = Inr r"
    and "int N * pollInterval < QUERY_TIMEOUT s"
    and "\<forall>h q. status_calls h < N \<longrightarrow>
           (\<exists>r. getQueryExecution s h q = Inr r \<and> status_state r \<noteq> Some ''SUCCEEDED''
              \<and> status_state r \<noteq> Some ''FAILED'' \<and> status_state r \<noteq> Some ''CANCELLED'')"
    and "\<forall>h q. status_calls h = N \<longrightarrow>
           (\<exists>r. getQueryExecution s h q = Inr r \<and> status_state r = Some ''FAILED''
              \<and> status_reason r = reason)"
  shows "(\<forall>t. reason = Some t \<and> t \<noteq> [] \<longrightarrow>
            fst (executeQuery s sql database) =
              Inr \<lparr>success = False, data = None, error = Some (''Query failed: '' @ t)\<rparr>) \<and>
         (reason = None \<longrightarrow>
            fst (executeQuery s sql database) =
              Inr \<lparr>success = False, data = None, error = Some ''Query failed: Unknown error''\<rparr>)"
  using failed_after_waiting [OF assms] by (simp add: failure_def or_string_def)

theorem failed_reason_is_prefixed_witness:
  "fst (executeQuery
          (stub_engine 60000 (\<lambda>k. if k < 1 then (''RUNNING'', None) else (''FAILED'', Some ''syntax error''))
             no_results)
          ''SELECT 1'' None) =
     Inr \<lparr>success = False, data = None, error = Some ''Query failed: syntax error''\<rparr>
   \<and> fst (executeQuery (stub_engine 60000 (\<lambda>k. (''FAILED'', None)) no_results) ''SELECT 1'' None) =
     Inr \<lparr>success = False, data = None, error = Some ''Query failed: Unknown error''\<rparr>"
  using failed_reason_is_prefixed
          [of "stub_engine 60000 (\<lambda>k. if k < 1 then (''RUNNING'', None) else (''FAILED'', Some ''syntax error''))
                 no_results" 1 "Some ''syntax error''" "''SELECT 1''" None]
        failed_reason_is_prefixed
          [of "stub_engine 60000 (\<lambda>k. (''FAILED'', None)) no_results" 0 None "''SELECT 1''" None]
  by (simp add: stub_defs status_state_def status_reason_def pollInterval_def)

text \<open>
  Claim C9. Against an engine that never reports a terminal state, with
  \<open>QUERY_TIMEOUT = 3 * pollInterval\<close>, the call returns the timeout failure, whose text
  carries the configured 6000 ms, after at most 4 status reads.
\<close>

theorem timeout_after_three_intervals:
  assumes "athena s"
    and "\<forall>h p. \<exists>r. startQueryExecution s h p = Inr r"
    and "QUERY_TIMEOUT s = 3 * pollInterval"
    and "\<forall>h q. \<exists>r. getQueryExecution s h q = Inr r \<and> status_state r \<noteq> Some ''SUCCEEDED''
              \<and> status_state r \<noteq> Some ''FAILED'' \<and> status_state r \<noteq> Some ''CANCELLED''"
  shows "fst (executeQuery s sql database) =
           Inr \<lparr>success = False, data = None, error = Some ''Query timeout after 6000ms''\<rparr>
         \<and> status_calls (snd (executeQuery s sql database)) \<le> 4"
  using timeout_after_waiting [OF assms, of sql database] assms(3)
  by (auto simp: timeout_response_def failure_def pollInterval_def show_int_6000)

theorem timeout_after_three_intervals_witness:
  "fst (executeQuery (stub_engine 6000 (\<lambda>k. (''RUNNING'', None)) no_results) ''SELECT 1'' None) =
     Inr \<lparr>success = False, data = None, error = Some ''Query timeout after 6000ms''\<rparr>
   \<and> status_calls
        (snd (executeQuery (stub_engine 6000 (\<lambda>k. (''RUNNING'', None)) no_results) ''SELECT 1'' None))
      \<le> 4"
  by (rule timeout_after_three_intervals)
     (simp_all add: stub_defs status_state_def pollInterval_def)

text \<open>
  Claim C5, as stated, fails at \<open>QUERY_TIMEOUT = 0\<close>: the loop condition is tested before the
  first pass, so the call returns the timeout failure without any status read.
\<close>

theorem no_status_read_at_zero_timeout_counterexample:
  "executeQuery (stub_engine 0 (\<lambda>k. (''RUNNING'', None)) no_results) ''SELECT 1'' None =
     (Inr \<lparr>success = False, data = None, error = Some ''Query timeout after 0ms''\<rparr>,
      [GetCallerIdentity,
       StartQueryExecution
         \<lparr>QueryString = ''SELECT 1'', Database = ''default'', WorkGroup = ''primary'',
          OutputLocation = ''s3://aws-athena-query-results-us-east-1-123456789012/''\<rparr>])
   \<and> status_calls
        (snd (executeQuery (stub_engine 0 (\<lambda>k. (''RUNNING'', None)) no_results) ''SELECT 1'' None)) = 0"
  by (simp add: run_defs stub_defs poll.simps show_int_0)

text \<open>
  Claim C5, amended. For every positive \<open>QUERY_TIMEOUT\<close>, also one smaller than the poll
  interval, a call that returns the timeout failure has made at least one status read
  before.
\<close>

theorem status_read_before_timeout:
  assumes "0 < QUERY_TIMEOUT s"
    and "executeQuery s sql database = (Inr r, h)"
    and "error r = Some (''Query timeout after '' @ show_int (QUERY_TIMEOUT s) @ ''ms'')"
  shows "1 \<le> status_calls h"
  using assms by (rule timeout_needs_a_status_read)

theorem status_read_before_timeout_witness:
  "error (projr (fst (executeQuery (stub_engine 1000 (\<lambda>k. (''RUNNING'', None)) no_results)
                        ''SELECT 1'' None))) = Some ''Query timeout after 1000ms''
   \<and> 1 \<le> status_calls
        (snd (executeQuery (stub_engine 1000 (\<lambda>k. (''RUNNING'', None)) no_results)
                ''SELECT 1'' None))"
proof -
  let ?s = "stub_engine 1000 (\<lambda>k. (''RUNNING'', None)) no_results"
  let ?r = "\<lparr>success = False, data = (None :: QueryData option),
             error = Some ''Query timeout after 1000ms''\<rparr>"
  have val: "fst (executeQuery ?s ''SELECT 1'' None) = Inr ?r"
    by (simp add: run_defs stub_defs poll.simps show_int_1000)
  then have run: "executeQuery ?s ''SELECT 1'' None = (Inr ?r, snd (executeQuery ?s ''SELECT 1'' None))"
    by (metis prod.collapse)
  have "1 \<le> status_calls (snd (executeQuery ?s ''SELECT 1'' None))"
    by (rule status_read_before_timeout [OF _ run])
       (simp_all add: stub_defs show_int_1000)
  with val show ?thesis by simp
qed

text \<open>
  Claim C6, as stated, fails: when the stop call of the engine is rejected,
  \<^verbatim>\<open>cancelQuery\<close> returns a failure envelope with the text of the error, not the
  acknowledgement.
\<close>

theorem cancelQuery_stop_error_counterexample:
  "cancelQuery
     ((stub_engine 60000 (\<lambda>k. (''RUNNING'', None)) no_results)
        \<lparr>stopQueryExecution := \<lambda>h q. Inl (Error ''InvalidRequestException'')\<rparr>)
     ''exec-123'' =
     (Inr \<lparr>success = False, data = None,
           error = Some ''Error cancelling query: InvalidRequestException''\<rparr>,
      [StopQueryExecution ''exec-123''])"
  by (simp add: cancelQuery_def failure_def stub_defs)

text \<open>
  Claim C6, amended. With the client initialised, \<^verbatim>\<open>cancelQuery\<close> returns the success
  acknowledgement with status \<^verbatim>\<open>CANCELLED\<close> and the message
  \<^verbatim>\<open>Query cancellation requested\<close> whenever the stop call returns, and the failure
  \<^verbatim>\<open>Error cancelling query: <message>\<close> when the stop call is rejected; in both cases
  the only call made is the stop call, so no status read confirms the cancellation.
\<close>

theorem cancelQuery_acknowledges_or_reports:
  assumes "athena s"
  shows "(\<forall>u. stopQueryExecution s [] queryId = Inr u \<longrightarrow>
            fst (cancelQuery s queryId) =
              Inr \<lparr>success = True,
                   data = Some \<lparr>cancel_query_execution_id = queryId,
                                cancel_status = ''CANCELLED'',
                                cancel_message = ''Query cancellation requested''\<rparr>,
                   error = None\<rparr>) \<and>
         (\<forall>e. stopQueryExecution s [] queryId = Inl e \<longrightarrow>
            fst (cancelQuery s queryId) =
              Inr \<lparr>success = False, data = None,
                   error = Some (''Error cancelling query: '' @ message e)\<rparr>) \<and>
         snd (cancelQuery s queryId) = [StopQueryExecution queryId] \<and>
         status_calls (snd (cancelQuery s queryId)) = 0"
  using assms by (auto simp: cancelQuery_def failure_def split: sum.split)

theorem cancelQuery_acknowledges_or_reports_witness:
  "cancelQuery (stub_engine 60000 (\<lambda>k. (''RUNNING'', None)) no_results) ''exec-123'' =
     (Inr \<lparr>success = True,
           data = Some \<lparr>cancel_query_execution_id = ''exec-123'',
                        cancel_status = ''CANCELLED'',
                        cancel_message = ''Query cancellation requested''\<rparr>,
           error = None\<rparr>,
      [StopQueryExecution ''exec-123''])"
  using cancelQuery_acknowledges_or_reports
          [of "stub_engine 60000 (\<lambda>k. (''RUNNING'', None)) no_results" "''exec-123''"]
  by (simp add: stub_defs prod_eq_iff)

text \<open>
  Claim C8. \<^verbatim>\<open>getQueryResultLocation\<close> always returns a location and never raises: the
  location of the account and region when the identity lookup succeeds, the default
  location of the region when the lookup is rejected; in that case \<^verbatim>\<open>executeQuery\<close> still
  submits the query, with the default location as output location.
\<close>

theorem result_location_falls_back:
  "(\<exists>uri. fst (getQueryResultLocation s h) = Inr uri) \<and>
   (\<forall>identity a. getCallerIdentity s h = Inr identity \<and> Account identity = Some a \<longrightarrow>
      fst (getQueryResultLocation s h) =
        Inr (''s3://aws-athena-query-results-'' @ region s @ ''-'' @ a @ ''/'')) \<and>
   (\<forall>e. getCallerIdentity s h = Inl e \<longrightarrow>
      fst (getQueryResultLocation s h) =
        Inr (''s3://aws-athena-query-results-'' @ region s @ ''-default/'')) \<and>
   (\<forall>e. athena s \<and> getCallerIdentity s [] = Inl e \<longrightarrow>
      map OutputLocation (submissions (snd (executeQuery s sql database))) =
        [''s3://aws-athena-query-results-'' @ region s @ ''-default/''])"
proof (intro conjI allI impI)
  show "\<exists>uri. fst (getQueryResultLocation s h) = Inr uri"
    by (cases "getCallerIdentity s h") (simp_all add: getQueryResultLocation_def)
next
  fix identity a
  assume "getCallerIdentity s h = Inr identity \<and> Account identity = Some a"
  then show "fst (getQueryResultLocation s h) =
      Inr (''s3://aws-athena-query-results-'' @ region s @ ''-'' @ a @ ''/'')"
    by (simp add: getQueryResultLocation_def template_string_def)
next
  fix e
  assume "getCallerIdentity s h = Inl e"
  then show "fst (getQueryResultLocation s h) =
      Inr (''s3://aws-athena-query-results-'' @ region s @ ''-default/'')"
    by (simp add: getQueryResultLocation_def)
next
  fix e
  assume a: "athena s \<and> getCallerIdentity s [] = Inl e"
  then have "fst (getQueryResultLocation s []) =
      Inr (''s3://aws-athena-query-results-'' @ region s @ ''-default/'')"
    by (simp add: getQueryResultLocation_def)
  with a executeQuery_submissions [of s sql database]
  show "map OutputLocation (submissions (snd (executeQuery s sql database))) =
        [''s3://aws-athena-query-results-'' @ region s @ ''-default/'']"
    by auto
qed

theorem result_location_falls_back_witness:
  "fst (getQueryResultLocation (stub_engine 60000 (\<lambda>k. (''SUCCEEDED'', None)) no_results) []) =
     Inr ''s3://aws-athena-query-results-us-east-1-123456789012/''
   \<and> fst (getQueryResultLocation
            ((stub_engine 60000 (\<lambda>k. (''SUCCEEDED'', None)) no_results)
               \<lparr>getCallerIdentity := \<lambda>h. Inl (Error ''AccessDenied'')\<rparr>) []) =
     Inr ''s3://aws-athena-query-results-us-east-1-default/''
   \<and> map OutputLocation
        (submissions
           (snd (executeQuery
                   ((stub_engine 60000 (\<lambda>k. (''SUCCEEDED'', None)) no_results)
                      \<lparr>getCallerIdentity := \<lambda>h. Inl (Error ''AccessDenied'')\<rparr>)
                   ''SELECT 1'' None))) =
     [''s3://aws-athena-query-results-us-east-1-default/'']"
  using result_location_falls_back
          [of "stub_engine 60000 (\<lambda>k. (''SUCCEEDED'', None)) no_results" "[]" "''SELECT 1''" None]
        result_location_falls_back
          [of "(stub_engine 60000 (\<lambda>k. (''SUCCEEDED'', None)) no_results)
                 \<lparr>getCallerIdentity := \<lambda>h. Inl (Error ''AccessDenied'')\<rparr>" "[]" "''SELECT 1''" None]
  by (simp add: stub_defs)

text \<open>
  Claim C10. An empty string passed as database is treated as no database: the call
  behaves exactly as the call without the argument, and the query is submitted against
  \<^verbatim>\<open>ATHENA_DATABASE\<close>.
\<close>

theorem empty_database_is_default:
  "executeQuery s sql (Some '''') = executeQuery s sql None \<and>
   (athena s \<longrightarrow>
      map Database (submissions (snd (executeQuery s sql (Some '''')))) = [ATHENA_DATABASE s])"
proof
  show "executeQuery s sql (Some '''') = executeQuery s sql None"
    by (simp add: executeQuery_def executeQuery_try_def or_string_def)
next
  show "athena s \<longrightarrow>
      map Database (submissions (snd (executeQuery s sql (Some '''')))) = [ATHENA_DATABASE s]"
  proof
    assume "athena s"
    from executeQuery_submissions [OF this, of sql "Some ''''"]
    show "map Database (submissions (snd (executeQuery s sql (Some '''')))) = [ATHENA_DATABASE s]"
      by (auto simp: or_string_def)
  qed
qed

theorem empty_database_is_default_witness:
  "map Database
     (submissions
        (snd (executeQuery (stub_engine 60000 (\<lambda>k. (''SUCCEEDED'', None)) no_results)
                ''SELECT 1'' (Some '''')))) = [''default'']"
proof -
  let ?s = "stub_engine 60000 (\<lambda>k. (''SUCCEEDED'', None)) no_results"
  have a: "athena ?s" and d: "ATHENA_DATABASE ?s = ''default''"
    by (simp_all add: stub_defs)
  have "athena ?s \<longrightarrow>
      map Database (submissions (snd (executeQuery ?s ''SELECT 1'' (Some '''')))) =
        [ATHENA_DATABASE ?s]"
    using empty_database_is_default [of ?s "''SELECT 1''"] by (rule conjunct2)
  with a d show ?thesis by simp
qed

text \<open>
  Claim C4, as stated, fails: the decoder walks over the cells that the raw row has, so a
  row shorter than the column list gets no entry for the missing cells, neither under the
  column name nor under \<^verbatim>\<open>col_<index>\<close>.
\<close>

theorem short_row_counterexample:
  "process_results short_row_results = ([''id'', ''name''], [[''id'' \<mapsto> ''1'']])
   \<and> length (row_cells (text_row [''1''])) < length [''id'', ''name'']
   \<and> hd (snd (process_results short_row_results)) ''col_1'' = None
   \<and> hd (snd (process_results short_row_results)) ''name'' = None"
  by (simp add: short_row_results_def decode_defs)

text \<open>
  Claim C4, amended. Apart from the name \<^verbatim>\<open>__proto__\<close>, about which nothing is said, the
  keys of a decoded row are the names of the indexes of the cells present in the raw row,
  and nothing else: the cell at index \<open>i\<close> is stored under the \<open>i\<close>-th column name when
  there is one and it is not empty, and under the synthesized name \<^verbatim>\<open>col_<i>\<close> otherwise,
  which is the case of every cell beyond the column list. Its value is the text of the cell
  (empty when absent), unless a later cell of the row has the same key. A row shorter than
  the column list gets no entry for its missing cells.
\<close>

theorem decoded_row_holds_the_cells_present:
  "dom (decode_row cols row) - {''__proto__''} =
     colName cols ` {..< length (row_cells row)} - {''__proto__''} \<and>
   (\<forall>i < length (row_cells row).
      colName cols i \<noteq> ''__proto__'' \<longrightarrow>
      (\<forall>j. i < j \<and> j < length (row_cells row) \<longrightarrow> colName cols j \<noteq> colName cols i) \<longrightarrow>
      decode_row cols row (colName cols i) = Some (cell_text (row_cells row ! i))) \<and>
   (\<forall>i. length cols \<le> i \<longrightarrow> colName cols i = ''col_'' @ show_nat i)"
proof (intro conjI allI impI)
  show "dom (decode_row cols row) - {''__proto__''} =
          colName cols ` {..< length (row_cells row)} - {''__proto__''}"
    using decode_cells_keys [of cols 0 "row_cells row" Map.empty]
    by (simp add: decode_row_def atLeast0LessThan)
next
  fix i
  assume "i < length (row_cells row)"
    and "colName cols i \<noteq> ''__proto__''"
    and "\<forall>j. i < j \<and> j < length (row_cells row) \<longrightarrow> colName cols j \<noteq> colName cols i"
  then show "decode_row cols row (colName cols i) = Some (cell_text (row_cells row ! i))"
    using decode_cells_lookup [of i "row_cells row" cols 0 Map.empty]
    by (simp add: decode_row_def)
next
  fix i
  assume "length cols \<le> i"
  then show "colName cols i = ''col_'' @ show_nat i"
    by (simp add: colName_def)
qed

theorem decoded_row_holds_the_cells_present_witness:
  "decode_row [''id''] (text_row [''1'', ''x'']) = [''id'' \<mapsto> ''1'', ''col_1'' \<mapsto> ''x'']
   \<and> decode_row [''id''] (text_row [''1'', ''x'']) (colName [''id''] 1) = Some ''x''
   \<and> colName [''id''] 1 = ''col_1''"
proof -
  let ?row = "text_row [''1'', ''x'']"
  have n1: "show_nat (Suc 0) = ''1''" by (simp add: show_nat.simps)
  have cells: "row_cells ?row = [\<lparr>VarCharValue = Some ''1''\<rparr>, \<lparr>VarCharValue = Some ''x''\<rparr>]"
    by (simp add: row_cells_def text_row_def)
  note decoded_row_holds_the_cells_present [of "[''id'']" ?row]
  then have all: "\<forall>i < length (row_cells ?row).
      colName [''id''] i \<noteq> ''__proto__'' \<longrightarrow>
      (\<forall>j. i < j \<and> j < length (row_cells ?row) \<longrightarrow> colName [''id''] j \<noteq> colName [''id''] i) \<longrightarrow>
      decode_row [''id''] ?row (colName [''id''] i) = Some (cell_text (row_cells ?row ! i))"
    by blast
  have inside: "1 < length (row_cells ?row)"
    by (simp add: cells)
  have named: "colName [''id''] 1 \<noteq> ''__proto__''"
    by (simp add: colName_def)
  have last: "\<forall>j. 1 < j \<and> j < length (row_cells ?row) \<longrightarrow> colName [''id''] j \<noteq> colName [''id''] 1"
    by (auto simp: cells)
  from all inside named last
  have "decode_row [''id''] ?row (colName [''id''] 1) = Some (cell_text (row_cells ?row ! 1))"
    by blast
  then show ?thesis
    by (simp add: decode_row_def cells cell_text_def colName_def or_string_def n1
        assign_property_def)
qed

text \<open>
  Claim C7. When the result set carries no column names and has at least one row, the
  column names are the cell texts of the first raw row, and the decoded rows are the
  remaining raw rows, in wire order, each decoded with these column names: the first
  decoded row is the second raw row.
\<close>

theorem header_row_heuristic:
  assumes "ResultSet results = Some rs"
    and "metadata_columns rs = []"
    and "Rows rs = Some (header # rest)"
  shows "process_results results =
           (map cell_text (row_cells header),
            map (decode_row (map cell_text (row_cells header))) rest)"
  using assms by (simp add: process_results_def decode_rows_data)

theorem header_row_heuristic_witness:
  "process_results headerless_results =
     ([''id'', ''name''],
      [[''id'' \<mapsto> ''1'', ''name'' \<mapsto> ''alice''], [''id'' \<mapsto> ''2'', ''name'' \<mapsto> ''bob'']])"
proof -
  have "process_results headerless_results =
          (map cell_text (row_cells (text_row [''id'', ''name''])),
           map (decode_row (map cell_text (row_cells (text_row [''id'', ''name'']))))
             [text_row [''1'', ''alice''], text_row [''2'', ''bob'']])"
    by (rule header_row_heuristic [where rs = "\<lparr>Rows = Some [text_row [''id'', ''name''],
           text_row [''1'', ''alice''], text_row [''2'', ''bob'']], ResultSetMetadata = None\<rparr>"])
       (simp_all add: headerless_results_def metadata_columns_def)
  then show ?thesis
    by (simp add: decode_row_def row_cells_def cell_text_def colName_def text_row_def
        or_string_def assign_property_def)
qed

end
